theory Spec2Isabelle
  imports Complex_Main
begin

section \<open>Python values and exceptions\<close>

text \<open>
  The values that travel through \<open>sdk.py\<close>: \<open>None\<close>, integers, the floats of
  \<open>time.time()\<close> (idealised as exact rationals), strings, lists and dicts (in insertion
  order, as \<open>json.dumps\<close> writes them).
\<close>

datatype pyval =
    PNone
  | PInt int
  | PNum rat
  | PStr string
  | PList "pyval list"
  | PDict "(string \<times> pyval) list"

text \<open>An exception instance: the name of its class and its message.\<close>

datatype py_exc = PyExc (exc_type: string) (exc_msg: string)

definition KeyError :: "string \<Rightarrow> py_exc" where
  "KeyError k = PyExc ''KeyError'' k"

definition TypeError :: py_exc where
  "TypeError = PyExc ''TypeError'' ''unsupported operand type(s) for +''"

definition TimeoutError :: py_exc where
  "TimeoutError = PyExc ''TimeoutError'' []"

section \<open>Teams and players\<close>

text \<open>
  \<open>GameEnginePlayer\<close> and \<open>GameEngineTeam\<close>: the fields read from the session
  description. The \<open>script\<close> field holds the path given to \<open>ScriptWrapper\<close>.
\<close>

record player =
  player_name :: string
  player_id :: string
  player_script :: string

record team =
  team_name :: string
  team_id :: string
  team_players :: "player list"

section \<open>GameEngineStats\<close>

text \<open>
  The private attributes of \<open>GameEngineStats\<close>: \<open>__teams\<close>, \<open>__players\<close> (a dict
  from player id to a dict from parameter name to value) and \<open>__params\<close>. Parameter
  values are Python integers.
\<close>

record stats =
  st_teams :: "team list"
  st_players :: "string \<rightharpoonup> (string \<rightharpoonup> int)"
  st_params :: "string list"

text \<open>The dict comprehension \<open>{param: 0 for param in params}\<close>.\<close>

definition zero_params :: "string list \<Rightarrow> (string \<rightharpoonup> int)" where
  "zero_params params = map_of (map (\<lambda>param. (param, 0)) params)"

text \<open>
  The two nested loops of \<open>set_params\<close>: every player of every team, in order, gets a
  fresh all-zero dict under its id.
\<close>

fun seed_players ::
  "string list \<Rightarrow> player list \<Rightarrow> (string \<rightharpoonup> (string \<rightharpoonup> int)) \<Rightarrow> (string \<rightharpoonup> (string \<rightharpoonup> int))" where
  "seed_players params [] m = m"
| "seed_players params (p # ps) m = seed_players params ps (m(player_id p \<mapsto> zero_params params))"

fun seed_teams ::
  "string list \<Rightarrow> team list \<Rightarrow> (string \<rightharpoonup> (string \<rightharpoonup> int)) \<Rightarrow> (string \<rightharpoonup> (string \<rightharpoonup> int))" where
  "seed_teams params [] m = m"
| "seed_teams params (t # ts) m = seed_teams params ts (seed_players params (team_players t) m)"

definition set_params :: "stats \<Rightarrow> string list \<Rightarrow> stats" where
  "set_params s params =
     s\<lparr>st_params := params, st_players := seed_teams params (st_teams s) (st_players s)\<rparr>"

text \<open>\<open>__init__\<close>: an empty table, then \<open>set_params\<close>.\<close>

definition stats_init :: "team list \<Rightarrow> string list \<Rightarrow> stats" where
  "stats_init teams params =
     set_params \<lparr>st_teams = teams, st_players = Map.empty, st_params = []\<rparr> params"

text \<open>
  \<open>set_value\<close>: the membership test comes first; the subscript
  \<open>self.__players[player.id]\<close> raises \<open>KeyError\<close> for an id that is not a key.
\<close>

definition set_value :: "stats \<Rightarrow> player \<Rightarrow> string \<Rightarrow> int \<Rightarrow> py_exc + stats" where
  "set_value s p param v =
     (if param \<in> set (st_params s) then
        (case st_players s (player_id p) of
           None \<Rightarrow> Inl (KeyError (player_id p))
         | Some d \<Rightarrow> Inr (s\<lparr>st_players := (st_players s)(player_id p \<mapsto> d(param \<mapsto> v))\<rparr>))
      else Inr s)"

text \<open>
  \<open>get_value\<close>: falls off the end, returning \<open>None\<close>, when the parameter is not
  declared; otherwise two subscripts, each of which may raise \<open>KeyError\<close>.
\<close>

definition get_value :: "stats \<Rightarrow> player \<Rightarrow> string \<Rightarrow> py_exc + int option" where
  "get_value s p param =
     (if param \<in> set (st_params s) then
        (case st_players s (player_id p) of
           None \<Rightarrow> Inl (KeyError (player_id p))
         | Some d \<Rightarrow> (case d param of None \<Rightarrow> Inl (KeyError param) | Some v \<Rightarrow> Inr (Some v)))
      else Inr None)"

text \<open>
  \<open>add_value\<close>: the argument \<open>self.get_value(player, param) + value\<close> is evaluated
  first; \<open>None + value\<close> raises \<open>TypeError\<close>. Only then is \<open>set_value\<close> called.
\<close>

definition add_value :: "stats \<Rightarrow> player \<Rightarrow> string \<Rightarrow> int \<Rightarrow> py_exc + stats" where
  "add_value s p param v =
     (case get_value s p param of
        Inl e \<Rightarrow> Inl e
      | Inr None \<Rightarrow> Inl TypeError
      | Inr (Some x) \<Rightarrow> set_value s p param (x + v))"

text \<open>
  \<open>get_table\<close>. The subscript \<open>self.__players[player.id][param]\<close> of both inner
  loops:
\<close>

definition lookup_cell :: "stats \<Rightarrow> player \<Rightarrow> string \<Rightarrow> py_exc + int" where
  "lookup_cell s p param =
     (case st_players s (player_id p) of
        None \<Rightarrow> Inl (KeyError (player_id p))
      | Some d \<Rightarrow> (case d param of None \<Rightarrow> Inl (KeyError param) | Some v \<Rightarrow> Inr v))"

text \<open>The loop \<open>for player in team.players: sums[i] += ...\<close>, with \<open>sums[i]\<close> as accumulator.\<close>

fun sum_players :: "stats \<Rightarrow> string \<Rightarrow> player list \<Rightarrow> int \<Rightarrow> py_exc + int" where
  "sum_players s param [] acc = Inr acc"
| "sum_players s param (p # ps) acc =
     (case lookup_cell s p param of
        Inl e \<Rightarrow> Inl e
      | Inr v \<Rightarrow> sum_players s param ps (acc + v))"

text \<open>The loop \<open>for i, param in enumerate(self.__params)\<close> that fills \<open>sums\<close>, starting from zeros.\<close>

fun team_sums :: "stats \<Rightarrow> player list \<Rightarrow> string list \<Rightarrow> py_exc + int list" where
  "team_sums s ps [] = Inr []"
| "team_sums s ps (param # params) =
     (case sum_players s param ps 0 of
        Inl e \<Rightarrow> Inl e
      | Inr x \<Rightarrow> (case team_sums s ps params of Inl e \<Rightarrow> Inl e | Inr xs \<Rightarrow> Inr (x # xs)))"

text \<open>The loop that fills \<open>row\<close> for one player: \<open>row[i] += ...\<close> on a list of zeros.\<close>

fun player_cells :: "stats \<Rightarrow> player \<Rightarrow> string list \<Rightarrow> py_exc + int list" where
  "player_cells s p [] = Inr []"
| "player_cells s p (param # params) =
     (case lookup_cell s p param of
        Inl e \<Rightarrow> Inl e
      | Inr v \<Rightarrow> (case player_cells s p params of Inl e \<Rightarrow> Inl e | Inr vs \<Rightarrow> Inr ((0 + v) # vs)))"

definition table_row :: "string \<Rightarrow> pyval list \<Rightarrow> pyval" where
  "table_row ty cols = PDict [(''type'', PStr ty), (''cols'', PList cols)]"

text \<open>The loop \<open>for player in team.players\<close> that appends one row per player.\<close>

fun player_rows :: "stats \<Rightarrow> player list \<Rightarrow> py_exc + pyval list" where
  "player_rows s [] = Inr []"
| "player_rows s (p # ps) =
     (case player_cells s p (st_params s) of
        Inl e \<Rightarrow> Inl e
      | Inr vs \<Rightarrow>
          (case player_rows s ps of
             Inl e \<Rightarrow> Inl e
           | Inr rows \<Rightarrow> Inr (table_row ''row'' (PStr (player_name p) # map PInt vs) # rows)))"

text \<open>The body of \<open>for team in self.__teams\<close>: the rows one team appends.\<close>

definition team_rows :: "stats \<Rightarrow> team \<Rightarrow> py_exc + pyval list" where
  "team_rows s t =
     (if length (team_players t) > 1 then
        (case team_sums s (team_players t) (st_params s) of
           Inl e \<Rightarrow> Inl e
         | Inr sums_list \<Rightarrow>
             (case player_rows s (team_players t) of
                Inl e \<Rightarrow> Inl e
              | Inr rows \<Rightarrow>
                  Inr (table_row ''subheader'' (PStr (team_name t) # map PInt sums_list) # rows)))
      else player_rows s (team_players t))"

fun teams_rows :: "stats \<Rightarrow> team list \<Rightarrow> py_exc + pyval list" where
  "teams_rows s [] = Inr []"
| "teams_rows s (t # ts) =
     (case team_rows s t of
        Inl e \<Rightarrow> Inl e
      | Inr rows \<Rightarrow> (case teams_rows s ts of Inl e \<Rightarrow> Inl e | Inr rest \<Rightarrow> Inr (rows @ rest)))"

definition get_table :: "stats \<Rightarrow> py_exc + pyval list" where
  "get_table s =
     (case teams_rows s (st_teams s) of
        Inl e \<Rightarrow> Inl e
      | Inr rows \<Rightarrow> Inr (table_row ''header'' (PStr '' '' # map PStr (st_params s)) # rows))"

text \<open>The states a \<open>GameEngineStats\<close> object can be in: its attributes are private, so
  it is built by \<open>__init__\<close> and changed by its methods only. A call that raises leaves
  the object as it was.\<close>

inductive reachable :: "stats \<Rightarrow> bool" where
  r_init: "reachable (stats_init teams params)"
| r_set_params: "reachable s \<Longrightarrow> reachable (set_params s params)"
| r_set_value: "reachable s \<Longrightarrow> set_value s p param v = Inr s' \<Longrightarrow> reachable s'"
| r_add_value: "reachable s \<Longrightarrow> add_value s p param v = Inr s' \<Longrightarrow> reachable s'"

definition all_players :: "team list \<Rightarrow> player list" where
  "all_players teams = concat (map team_players teams)"

text \<open>The invariant of the table as the specification words it: every player of every
  team has every declared parameter present.\<close>

definition stats_inv :: "stats \<Rightarrow> bool" where
  "stats_inv s =
     (\<forall>p \<in> set (all_players (st_teams s)).
        \<exists>d. st_players s (player_id p) = Some d \<and> set (st_params s) \<subseteq> dom d)"

subsection \<open>The rendered table as the specification describes it\<close>

text \<open>
  The description of the rendered table in the specification's words, to be compared
  with \<open>get_table\<close>. The text of the header's first column is a parameter.
\<close>

definition spec_value :: "stats \<Rightarrow> player \<Rightarrow> string \<Rightarrow> int" where
  "spec_value s p param =
     (case st_players s (player_id p) of
        None \<Rightarrow> 0
      | Some d \<Rightarrow> (case d param of None \<Rightarrow> 0 | Some v \<Rightarrow> v))"

definition spec_header :: "string \<Rightarrow> stats \<Rightarrow> pyval" where
  "spec_header corner s = table_row ''header'' (PStr corner # map PStr (st_params s))"

definition spec_subheader :: "stats \<Rightarrow> team \<Rightarrow> pyval" where
  "spec_subheader s t =
     table_row ''subheader''
       (PStr (team_name t) #
        map (\<lambda>param. PInt (sum_list (map (\<lambda>p. spec_value s p param) (team_players t)))) (st_params s))"

definition spec_player_row :: "stats \<Rightarrow> player \<Rightarrow> pyval" where
  "spec_player_row s p =
     table_row ''row'' (PStr (player_name p) # map (\<lambda>param. PInt (spec_value s p param)) (st_params s))"

definition spec_team_rows :: "stats \<Rightarrow> team \<Rightarrow> pyval list" where
  "spec_team_rows s t =
     (if length (team_players t) > 1 then [spec_subheader s t] else []) @
     map (spec_player_row s) (team_players t)"

definition spec_render :: "string \<Rightarrow> stats \<Rightarrow> pyval list" where
  "spec_render corner s = spec_header corner s # concat (map (spec_team_rows s) (st_teams s))"

section \<open>RedisClient\<close>

text \<open>
  Python's \<open>round(x, 2)\<close> on the exact value of \<open>x\<close>: to the nearest multiple of
  \<open>1/100\<close>, a tie going to the even one.
\<close>

definition round_half_even :: "rat \<Rightarrow> int" where
  "round_half_even y =
     (let f = \<lfloor>y\<rfloor>; r = y - of_int f
      in if r < 1 / 2 then f else if 1 / 2 < r then f + 1 else if even f then f else f + 1)"

definition py_round2 :: "rat \<Rightarrow> rat" where
  "py_round2 x = of_int (round_half_even (x * 100)) / 100"

text \<open>
  The client holds the session id; the broker is the list of the messages published so
  far, each with its channel, oldest first. A message is kept as the object that
  \<open>json.dumps\<close> writes, its keys in the order of the dict literal.
\<close>

record redis_client =
  rc_session_id :: string
  rc_published :: "(string \<times> pyval) list"

definition pack_message :: "redis_client \<Rightarrow> string \<Rightarrow> pyval \<Rightarrow> rat \<Rightarrow> pyval" where
  "pack_message rc ty data elapsed_time =
     PDict [(''session_id'', PStr (rc_session_id rc)),
            (''data'', data),
            (''type'', PStr ty),
            (''elapsed'', PNum (py_round2 elapsed_time))]"

text \<open>\<open>send_message(type, elapsed_time, data={})\<close>: an omitted \<open>data\<close> is \<open>None\<close> here.\<close>

definition send_message :: "redis_client \<Rightarrow> string \<Rightarrow> rat \<Rightarrow> pyval option \<Rightarrow> redis_client" where
  "send_message rc ty elapsed_time data =
     rc\<lparr>rc_published := rc_published rc @
        [(''game_engine_notifications'',
          pack_message rc ty (case data of None \<Rightarrow> PDict [] | Some d \<Rightarrow> d) elapsed_time)]\<rparr>"

section \<open>GameEngineClient\<close>

text \<open>
  Every call of \<open>time.time()\<close> is an argument of the operation that makes it: the
  reading of the clock at that moment.
\<close>

record client =
  cl_session_id :: string
  cl_teams :: "team list"
  cl_redis :: redis_client
  cl_start_time :: rat

definition client_init :: "string \<Rightarrow> team list \<Rightarrow> client" where
  "client_init sid teams =
     \<lparr>cl_session_id = sid, cl_teams = teams,
      cl_redis = \<lparr>rc_session_id = sid, rc_published = []\<rparr>,
      cl_start_time = 0\<rparr>"

definition elapsed :: "client \<Rightarrow> rat \<Rightarrow> rat" where
  "elapsed c now = now - cl_start_time c"

text \<open>\<open>send_event(event, description={})\<close>: an omitted \<open>description\<close> is \<open>None\<close> here.\<close>

definition send_event :: "client \<Rightarrow> rat \<Rightarrow> string \<Rightarrow> pyval option \<Rightarrow> client" where
  "send_event c now event description =
     c\<lparr>cl_redis := send_message (cl_redis c) ''event'' (elapsed c now)
          (Some (PDict [(''type'', PStr event),
                        (''description'', (case description of None \<Rightarrow> PDict [] | Some d \<Rightarrow> d))]))\<rparr>"

definition set_winner :: "client \<Rightarrow> rat \<Rightarrow> team \<Rightarrow> client" where
  "set_winner c now t = send_event c now ''winner'' (Some (PDict [(''team_id'', PStr (team_id t))]))"


definition end_session :: "client \<Rightarrow> rat \<Rightarrow> client" where
  "end_session c now = send_event c now ''ended'' None"





section \<open>timeout_run\<close>

text \<open>
  The dict shared between the worker process and the caller.
\<close>

record mailbox =
  mb_result :: pyval
  mb_exception :: "py_exc option"
  mb_finished :: bool

definition initial_mailbox :: mailbox where
  "initial_mailbox = \<lparr>mb_result = PNone, mb_exception = None, mb_finished = False\<rparr>"

text \<open>
  What \<open>getattr(module, function_name)(*args)\<close> does in the worker: it returns a
  value, it raises an \<open>Exception\<close>, or control never comes back to the wrapper (the
  call hangs, or leaves the process).
\<close>

datatype worker_call = Returns pyval | Raises py_exc | NoReturn

text \<open>The writes \<open>__proccess_wrapper\<close> makes to the shared dict, in order.\<close>

fun proccess_wrapper :: "worker_call \<Rightarrow> (mailbox \<Rightarrow> mailbox) list" where
  "proccess_wrapper (Returns v) = [\<lambda>m. m\<lparr>mb_result := v\<rparr>, \<lambda>m. m\<lparr>mb_finished := True\<rparr>]"
| "proccess_wrapper (Raises e) = [\<lambda>m. m\<lparr>mb_exception := Some e\<rparr>, \<lambda>m. m\<lparr>mb_finished := True\<rparr>]"
| "proccess_wrapper NoReturn = []"

text \<open>
  \<open>thread.join(timeout)\<close> followed by \<open>thread.terminate()\<close> lets the worker make
  some number \<open>done\<close> of its writes, which the timeout and the scheduler decide; the
  caller then copies the dict.
\<close>

definition mailbox_after_join :: "nat \<Rightarrow> worker_call \<Rightarrow> mailbox" where
  "mailbox_after_join done call = fold (\<lambda>w m. w m) (take done (proccess_wrapper call)) initial_mailbox"

text \<open>
  The test \<open>if return_dict['exception']\<close> is a test for \<open>None\<close>: an exception instance
  is true.
\<close>

definition timeout_run :: "nat \<Rightarrow> worker_call \<Rightarrow> py_exc + pyval" where
  "timeout_run done call =
     (let return_dict = mailbox_after_join done call
      in if \<not> mb_finished return_dict then Inl TimeoutError
         else (case mb_exception return_dict of
                 Some e \<Rightarrow> Inl e
               | None \<Rightarrow> Inr (mb_result return_dict)))"

section \<open>Auxiliary definitions for the statements\<close>

text \<open>
  What holds of every table a \<open>GameEngineStats\<close> object can hold: its keys are the ids
  of the players of its teams, and every inner dict has the declared parameters as keys.
\<close>

definition table_inv :: "stats \<Rightarrow> bool" where
  "table_inv s =
     (dom (st_players s) = player_id ` set (all_players (st_teams s)) \<and>
      (\<forall>k d. st_players s k = Some d \<longrightarrow> dom d = set (st_params s)))"

text \<open>The keys of a dict, and the \<open>elapsed\<close> field of the last message on the broker.\<close>

definition keys :: "pyval \<Rightarrow> string list" where
  "keys v = (case v of PDict kvs \<Rightarrow> map fst kvs | _ \<Rightarrow> [])"


subsection \<open>A session with two teams\<close>

text \<open>
  A team of two players and a team of one, one parameter \<open>a\<close>, and the table after the
  three players were given 1, 2 and 5. The fourth player is in no team.
\<close>

definition ex_p1 :: player where
  "ex_p1 = \<lparr>player_name = ''alice'', player_id = ''p1'', player_script = ''alice.py''\<rparr>"

definition ex_p2 :: player where
  "ex_p2 = \<lparr>player_name = ''bob'', player_id = ''p2'', player_script = ''bob.py''\<rparr>"

definition ex_p3 :: player where
  "ex_p3 = \<lparr>player_name = ''carol'', player_id = ''p3'', player_script = ''carol.py''\<rparr>"

definition ex_p4 :: player where
  "ex_p4 = \<lparr>player_name = ''dave'', player_id = ''p4'', player_script = ''dave.py''\<rparr>"

definition ex_team1 :: team where
  "ex_team1 = \<lparr>team_name = ''red'', team_id = ''t1'', team_players = [ex_p1, ex_p2]\<rparr>"

definition ex_team2 :: team where
  "ex_team2 = \<lparr>team_name = ''blue'', team_id = ''t2'', team_players = [ex_p3]\<rparr>"

definition ex_stats0 :: stats where
  "ex_stats0 = stats_init [ex_team1, ex_team2] [''a'']"

definition ex_stats :: stats where
  "ex_stats =
     projr (set_value (projr (set_value (projr (set_value ex_stats0 ex_p1 ''a'' 1)) ex_p2 ''a'' 2)) ex_p3 ''a'' 5)"

section \<open>The table's invariant\<close>

lemma zero_params_apply: "zero_params params x = (if x \<in> set params then Some 0 else None)"
  unfolding zero_params_def by (induction params) auto

lemma dom_zero_params: "dom (zero_params params) = set params"
proof (rule set_eqI)
  fix x
  show "x \<in> dom (zero_params params) \<longleftrightarrow> x \<in> set params"
    by (simp add: domIff zero_params_apply)
qed

lemma seed_players_apply:
  "seed_players params ps m k =
     (if k \<in> player_id ` set ps then Some (zero_params params) else m k)"
  by (induction ps arbitrary: m) auto

lemma seed_teams_apply:
  "seed_teams params ts m k =
     (if k \<in> player_id ` set (all_players ts) then Some (zero_params params) else m k)"
  by (induction ts arbitrary: m) (auto simp: all_players_def seed_players_apply)

lemma st_teams_set_params: "st_teams (set_params s params) = st_teams s"
  by (simp add: set_params_def)

lemma dom_seed_teams:
  "dom (seed_teams params ts m) = dom m \<union> player_id ` set (all_players ts)"
  by (auto simp: seed_teams_apply dom_def split: if_splits)

lemma seed_teams_Some:
  "seed_teams params ts m k = Some d \<Longrightarrow> d = zero_params params \<or> m k = Some d"
  by (auto simp: seed_teams_apply split: if_splits)

lemma table_inv_init: "table_inv (stats_init teams params)"
proof -
  let ?s = "stats_init teams params"
  have t: "st_teams ?s = teams" and p: "st_params ?s = params"
    and m: "st_players ?s = seed_teams params teams Map.empty"
    by (simp_all add: stats_init_def set_params_def)
  have "dom (st_players ?s) = player_id ` set (all_players (st_teams ?s))"
    by (simp add: t m dom_seed_teams)
  moreover have "dom d = set (st_params ?s)" if "st_players ?s k = Some d" for k d
  proof -
    from that have "d = zero_params params"
      by (simp add: m seed_teams_apply split: if_splits)
    then show ?thesis by (simp add: p dom_zero_params)
  qed
  ultimately show ?thesis unfolding table_inv_def by blast
qed

lemma table_inv_set_params:
  assumes "table_inv s"
  shows "table_inv (set_params s params)"
proof -
  let ?s = "set_params s params"
  have t: "st_teams ?s = st_teams s" and p: "st_params ?s = params"
    and m: "st_players ?s = seed_teams params (st_teams s) (st_players s)"
    by (simp_all add: set_params_def)
  from assms have d: "dom (st_players s) = player_id ` set (all_players (st_teams s))"
    by (simp add: table_inv_def)
  have "dom (st_players ?s) = player_id ` set (all_players (st_teams ?s))"
    by (simp add: t m dom_seed_teams d)
  moreover have "dom e = set (st_params ?s)" if "st_players ?s k = Some e" for k e
  proof (cases "k \<in> player_id ` set (all_players (st_teams s))")
    case True
    with that have "e = zero_params params" by (simp add: m seed_teams_apply)
    then show ?thesis by (simp add: p dom_zero_params)
  next
    case False
    with that have "st_players s k = Some e" by (simp add: m seed_teams_apply)
    then have "k \<in> dom (st_players s)" by blast
    with d False show ?thesis by simp
  qed
  ultimately show ?thesis unfolding table_inv_def by blast
qed

lemma table_inv_set_value:
  assumes "table_inv s" and "set_value s p param v = Inr s'"
  shows "table_inv s'"
proof (cases "param \<in> set (st_params s)")
  case False
  with assms show ?thesis by (simp add: set_value_def)
next
  case True
  with assms(2) obtain d where d: "st_players s (player_id p) = Some d"
    and s': "s' = s\<lparr>st_players := (st_players s)(player_id p \<mapsto> d(param \<mapsto> v))\<rparr>"
    by (auto simp: set_value_def split: option.splits)
  from assms(1) have dm: "dom (st_players s) = player_id ` set (all_players (st_teams s))"
    and dd: "\<And>k e. st_players s k = Some e \<Longrightarrow> dom e = set (st_params s)"
    by (simp_all add: table_inv_def)
  from d have "player_id p \<in> dom (st_players s)" by blast
  then have "dom (st_players s') = player_id ` set (all_players (st_teams s'))"
    using dm by (auto simp: s')
  moreover have "dom e = set (st_params s')" if "st_players s' k = Some e" for k e
  proof (cases "k = player_id p")
    case True
    with that have "e = d(param \<mapsto> v)" by (simp add: s')
    moreover from dd [OF d] \<open>param \<in> set (st_params s)\<close> have "dom (d(param \<mapsto> v)) = set (st_params s)"
      by auto
    ultimately show ?thesis by (simp add: s')
  next
    case False
    with that have "st_players s k = Some e" by (simp add: s')
    from dd [OF this] show ?thesis by (simp add: s')
  qed
  ultimately show ?thesis unfolding table_inv_def by blast
qed

lemma table_inv_add_value: "table_inv s \<Longrightarrow> add_value s p param v = Inr s' \<Longrightarrow> table_inv s'"
  by (auto simp: add_value_def split: sum.splits option.splits intro: table_inv_set_value)

lemma reachable_table_inv: "reachable s \<Longrightarrow> table_inv s"
  by (induction rule: reachable.induct)
     (auto intro: table_inv_init table_inv_set_params table_inv_set_value table_inv_add_value)

section \<open>The rendered table\<close>

lemma lookup_cell_spec:
  assumes "table_inv s" and "p \<in> set (all_players (st_teams s))" and "param \<in> set (st_params s)"
  shows "lookup_cell s p param = Inr (spec_value s p param)"
proof -
  from assms(1,2) have "player_id p \<in> dom (st_players s)"
    by (simp add: table_inv_def)
  then obtain d where d: "st_players s (player_id p) = Some d" by blast
  with assms(1) have "dom d = set (st_params s)" by (simp add: table_inv_def)
  with assms(3) obtain v where "d param = Some v" by blast
  with d show ?thesis by (simp add: lookup_cell_def spec_value_def)
qed

lemma sum_players_spec:
  assumes "table_inv s" and "param \<in> set (st_params s)"
  shows "set ps \<subseteq> set (all_players (st_teams s)) \<Longrightarrow>
    sum_players s param ps acc = Inr (acc + sum_list (map (\<lambda>p. spec_value s p param) ps))"
proof (induction ps arbitrary: acc)
  case Nil
  then show ?case by simp
next
  case (Cons p ps)
  then have "lookup_cell s p param = Inr (spec_value s p param)"
    using assms by (simp add: lookup_cell_spec)
  with Cons show ?case by (simp add: add.assoc)
qed

lemma team_sums_spec:
  assumes "table_inv s" and "set ps \<subseteq> set (all_players (st_teams s))"
  shows "set params \<subseteq> set (st_params s) \<Longrightarrow>
    team_sums s ps params = Inr (map (\<lambda>param. sum_list (map (\<lambda>p. spec_value s p param) ps)) params)"
  by (induction params) (simp_all add: sum_players_spec [OF assms(1) _ assms(2)])

lemma player_cells_spec:
  assumes "table_inv s" and "p \<in> set (all_players (st_teams s))"
  shows "set params \<subseteq> set (st_params s) \<Longrightarrow>
    player_cells s p params = Inr (map (spec_value s p) params)"
  by (induction params) (simp_all add: lookup_cell_spec [OF assms])

lemma player_rows_spec:
  assumes "table_inv s"
  shows "set ps \<subseteq> set (all_players (st_teams s)) \<Longrightarrow>
    player_rows s ps = Inr (map (spec_player_row s) ps)"
  by (induction ps) (simp_all add: player_cells_spec [OF assms] spec_player_row_def comp_def)

lemma team_players_subset:
  "t \<in> set ts \<Longrightarrow> set (team_players t) \<subseteq> set (all_players ts)"
  by (auto simp: all_players_def)

lemma team_rows_spec:
  assumes "table_inv s" and "t \<in> set (st_teams s)"
  shows "team_rows s t = Inr (spec_team_rows s t)"
  using team_players_subset [OF assms(2)]
  by (simp add: team_rows_def spec_team_rows_def spec_subheader_def comp_def
      team_sums_spec [OF assms(1)] player_rows_spec [OF assms(1)])

lemma teams_rows_spec:
  assumes "table_inv s"
  shows "set ts \<subseteq> set (st_teams s) \<Longrightarrow> teams_rows s ts = Inr (concat (map (spec_team_rows s) ts))"
  by (induction ts) (simp_all add: team_rows_spec [OF assms])

lemma get_table_spec:
  assumes "table_inv s"
  shows "get_table s = Inr (spec_render '' '' s)"
  by (simp add: get_table_def spec_render_def spec_header_def teams_rows_spec [OF assms])

subsection \<open>The session with two teams\<close>

lemmas ex_defs = ex_p1_def ex_p2_def ex_p3_def ex_p4_def ex_team1_def ex_team2_def ex_stats0_def

lemma set_value_seeded:
  assumes "table_inv s" and "p \<in> set (all_players (st_teams s))"
  shows "\<exists>s'. set_value s p param v = Inr s' \<and> st_teams s' = st_teams s"
proof -
  from assms have "player_id p \<in> dom (st_players s)" by (simp add: table_inv_def)
  then obtain d where "st_players s (player_id p) = Some d" by blast
  then show ?thesis by (simp add: set_value_def)
qed

lemma reachable_set_value_seeded:
  assumes "reachable s" and "p \<in> set (all_players (st_teams s))"
  shows "reachable (projr (set_value s p param v)) \<and> st_teams (projr (set_value s p param v)) = st_teams s"
proof -
  from set_value_seeded [OF reachable_table_inv [OF assms(1)] assms(2)]
  obtain s' where s': "set_value s p param v = Inr s'" "st_teams s' = st_teams s" by blast
  from reachable.r_set_value [OF assms(1) s'(1)] s' show ?thesis by simp
qed

lemma st_teams_ex_stats0: "st_teams ex_stats0 = [ex_team1, ex_team2]"
  by (simp add: ex_stats0_def stats_init_def set_params_def)

lemma all_players_ex: "all_players [ex_team1, ex_team2] = [ex_p1, ex_p2, ex_p3]"
  by (simp add: all_players_def ex_team1_def ex_team2_def)

lemma reachable_ex_stats: "reachable ex_stats"
proof -
  have r0: "reachable ex_stats0" unfolding ex_stats0_def by (rule reachable.r_init)
  note r1 = reachable_set_value_seeded [OF r0, of ex_p1 "''a''" 1, simplified st_teams_ex_stats0 all_players_ex, simplified]
  note r2 = reachable_set_value_seeded [OF r1 [THEN conjunct1], of ex_p2 "''a''" 2, simplified r1 [THEN conjunct2] all_players_ex, simplified]
  note r3 = reachable_set_value_seeded [OF r2 [THEN conjunct1], of ex_p3 "''a''" 5, simplified r2 [THEN conjunct2] all_players_ex, simplified]
  from r3 show ?thesis by (simp add: ex_stats_def)
qed

lemma ex_stats_eval:
  "st_teams ex_stats = [ex_team1, ex_team2]" "st_params ex_stats = [''a'']"
  "st_players ex_stats ''p1'' = Some [''a'' \<mapsto> 1]"
  "st_players ex_stats ''p2'' = Some [''a'' \<mapsto> 2]"
  "st_players ex_stats ''p3'' = Some [''a'' \<mapsto> 5]"
  by (simp_all add: ex_stats_def ex_defs stats_init_def set_params_def set_value_def zero_params_def)

text \<open>
  Claim C2, with the header's first column as the code writes it. In every state a
  stats object can reach, \<open>get_table\<close> raises nothing and returns first the header
  row, whose columns are the one-space string \<open>" "\<close> and then the parameter names in
  declaration order; then, for each team in order, a subheader row exactly when the team
  has more than one player (the team's name, then the sum of each parameter over the
  team's players), followed by one row per player in order (the player's name, then the
  player's values).
\<close>

theorem get_table_renders:
  "reachable s \<Longrightarrow> get_table s = Inr (spec_render '' '' s)"
  by (rule get_table_spec) (rule reachable_table_inv)

theorem get_table_renders_witness:
  "reachable ex_stats \<and>
   get_table ex_stats =
     Inr [table_row ''header'' [PStr '' '', PStr ''a''],
          table_row ''subheader'' [PStr ''red'', PInt 3],
          table_row ''row'' [PStr ''alice'', PInt 1],
          table_row ''row'' [PStr ''bob'', PInt 2],
          table_row ''row'' [PStr ''carol'', PInt 5]]"
proof -
  have "spec_render '' '' ex_stats =
     [table_row ''header'' [PStr '' '', PStr ''a''],
          table_row ''subheader'' [PStr ''red'', PInt 3],
          table_row ''row'' [PStr ''alice'', PInt 1],
          table_row ''row'' [PStr ''bob'', PInt 2],
          table_row ''row'' [PStr ''carol'', PInt 5]]"
    by (simp add: spec_render_def spec_header_def spec_team_rows_def spec_subheader_def
        spec_player_row_def spec_value_def ex_stats_eval ex_p1_def ex_p2_def ex_p3_def
        ex_team1_def ex_team2_def)
  with get_table_renders [OF reachable_ex_stats] reachable_ex_stats show ?thesis by simp
qed

text \<open>
  The header the claim words, with the empty string in its first column, is not the header
  of the table: in the session of two teams the first column is \<open>" "\<close>.
\<close>

theorem get_table_header_counterexample:
  "get_table ex_stats =
     Inr [table_row ''header'' [PStr '' '', PStr ''a''],
          table_row ''subheader'' [PStr ''red'', PInt 3],
          table_row ''row'' [PStr ''alice'', PInt 1],
          table_row ''row'' [PStr ''bob'', PInt 2],
          table_row ''row'' [PStr ''carol'', PInt 5]] \<and>
   get_table ex_stats \<noteq> Inr (spec_render [] ex_stats)"
proof -
  have g: "get_table ex_stats = Inr (spec_render '' '' ex_stats)"
    by (rule get_table_spec) (rule reachable_table_inv [OF reachable_ex_stats])
  have "spec_render '' '' ex_stats =
     [table_row ''header'' [PStr '' '', PStr ''a''],
          table_row ''subheader'' [PStr ''red'', PInt 3],
          table_row ''row'' [PStr ''alice'', PInt 1],
          table_row ''row'' [PStr ''bob'', PInt 2],
          table_row ''row'' [PStr ''carol'', PInt 5]]"
    by (simp add: spec_render_def spec_header_def spec_team_rows_def spec_subheader_def
        spec_player_row_def spec_value_def ex_stats_eval ex_p1_def ex_p2_def ex_p3_def
        ex_team1_def ex_team2_def)
  moreover have "spec_render '' '' ex_stats \<noteq> spec_render [] ex_stats"
    by (simp add: spec_render_def spec_header_def table_row_def)
  ultimately show ?thesis using g by simp
qed

section \<open>Reading and writing values\<close>

text \<open>
  Claim C7. For a parameter name that is not declared, \<open>set_value\<close> raises nothing and
  leaves the whole state as it was, and \<open>get_value\<close> raises nothing and returns
  \<open>None\<close>: not zero and not an error. This holds in every state and for every player.
\<close>

theorem undeclared_set_get:
  "param \<notin> set (st_params s) \<Longrightarrow> set_value s p param v = Inr s \<and> get_value s p param = Inr None"
  by (simp add: set_value_def get_value_def)

theorem undeclared_set_get_witness:
  "''c'' \<notin> set (st_params ex_stats) \<and> set_value ex_stats ex_p1 ''c'' 7 = Inr ex_stats \<and>
   get_value ex_stats ex_p1 ''c'' = Inr None"
proof -
  have h: "''c'' \<notin> set (st_params ex_stats)" by (simp add: ex_stats_eval)
  from undeclared_set_get [OF h, of ex_p1 7] h show ?thesis by simp
qed



text \<open>
  Claim C10. For a player whose id is the id of no player of the table's teams and a
  declared parameter name, \<open>set_value\<close>, \<open>get_value\<close> and \<open>add_value\<close> each raise
  \<open>KeyError\<close> on the lookup of the player's id.
\<close>

theorem unknown_player_KeyError:
  assumes "reachable s" and "player_id p \<notin> player_id ` set (all_players (st_teams s))"
    and "param \<in> set (st_params s)"
  shows "set_value s p param v = Inl (KeyError (player_id p)) \<and>
         get_value s p param = Inl (KeyError (player_id p)) \<and>
         add_value s p param v = Inl (KeyError (player_id p))"
proof -
  from reachable_table_inv [OF assms(1)] assms(2) have "player_id p \<notin> dom (st_players s)"
    by (simp add: table_inv_def)
  then have "st_players s (player_id p) = None" by blast
  with assms(3) show ?thesis by (simp add: set_value_def get_value_def add_value_def)
qed

theorem unknown_player_KeyError_witness:
  "reachable ex_stats \<and> player_id ex_p4 \<notin> player_id ` set (all_players (st_teams ex_stats)) \<and>
   ''a'' \<in> set (st_params ex_stats) \<and>
   set_value ex_stats ex_p4 ''a'' 1 = Inl (KeyError ''p4'') \<and>
   get_value ex_stats ex_p4 ''a'' = Inl (KeyError ''p4'') \<and>
   add_value ex_stats ex_p4 ''a'' 1 = Inl (KeyError ''p4'')"
proof -
  have h2: "player_id ex_p4 \<notin> player_id ` set (all_players (st_teams ex_stats))"
    by (simp add: ex_stats_eval all_players_ex) (simp add: ex_p1_def ex_p2_def ex_p3_def ex_p4_def)
  have h3: "''a'' \<in> set (st_params ex_stats)" by (simp add: ex_stats_eval)
  have "player_id ex_p4 = ''p4''" by (simp add: ex_p4_def)
  with unknown_player_KeyError [OF reachable_ex_stats h2 h3, of 1] reachable_ex_stats h2 h3
  show ?thesis by simp
qed

text \<open>
  Claim C6. For a player of one of the table's teams: after \<open>set_params(["a", "b"])\<close>
  and \<open>set_value(p, "a", 5)\<close>, \<open>get_value\<close> returns 5 for \<open>a\<close>, 0 for \<open>b\<close> and
  \<open>None\<close> for \<open>c\<close>; after a further \<open>add_value(p, "a", 3)\<close> it returns 8 for \<open>a\<close>.
\<close>

theorem declare_set_get_add:
  assumes "p \<in> set (all_players (st_teams s))"
  shows "\<exists>s2 s3.
    set_value (set_params s [''a'', ''b'']) p ''a'' 5 = Inr s2 \<and>
    get_value s2 p ''a'' = Inr (Some 5) \<and>
    get_value s2 p ''b'' = Inr (Some 0) \<and>
    get_value s2 p ''c'' = Inr None \<and>
    add_value s2 p ''a'' 3 = Inr s3 \<and>
    get_value s3 p ''a'' = Inr (Some 8)"
proof -
  let ?s1 = "set_params s [''a'', ''b'']"
  from assms have "st_players ?s1 (player_id p) = Some (zero_params [''a'', ''b''])"
    by (simp add: set_params_def seed_teams_apply)
  then show ?thesis
    by (simp add: set_value_def get_value_def add_value_def set_params_def zero_params_apply)
qed

theorem declare_set_get_add_witness:
  "ex_p1 \<in> set (all_players (st_teams ex_stats)) \<and>
   (\<exists>s2 s3.
    set_value (set_params ex_stats [''a'', ''b'']) ex_p1 ''a'' 5 = Inr s2 \<and>
    get_value s2 ex_p1 ''a'' = Inr (Some 5) \<and>
    get_value s2 ex_p1 ''b'' = Inr (Some 0) \<and>
    get_value s2 ex_p1 ''c'' = Inr None \<and>
    add_value s2 ex_p1 ''a'' 3 = Inr s3 \<and>
    get_value s3 ex_p1 ''a'' = Inr (Some 8))"
proof -
  have h: "ex_p1 \<in> set (all_players (st_teams ex_stats))"
    by (simp add: ex_stats_eval all_players_ex)
  from declare_set_get_add [OF h] h show ?thesis by blast
qed

lemma stats_inv_set_params: "stats_inv (set_params s params)"
  by (auto simp: stats_inv_def set_params_def seed_teams_apply dom_zero_params)

lemma stats_inv_set_value:
  assumes "stats_inv s" and "set_value s p param v = Inr s'"
  shows "stats_inv s'"
proof (cases "param \<in> set (st_params s)")
  case False
  with assms show ?thesis by (simp add: set_value_def)
next
  case True
  with assms(2) obtain d where d: "st_players s (player_id p) = Some d"
    and s': "s' = s\<lparr>st_players := (st_players s)(player_id p \<mapsto> d(param \<mapsto> v))\<rparr>"
    by (auto simp: set_value_def split: option.splits)
  show ?thesis unfolding stats_inv_def
  proof
    fix q assume "q \<in> set (all_players (st_teams s'))"
    then have "q \<in> set (all_players (st_teams s))" by (simp add: s')
    with assms(1) obtain e where e: "st_players s (player_id q) = Some e" "set (st_params s) \<subseteq> dom e"
      unfolding stats_inv_def by blast
    show "\<exists>d. st_players s' (player_id q) = Some d \<and> set (st_params s') \<subseteq> dom d"
    proof (cases "player_id q = player_id p")
      case True
      with d e have "set (st_params s) \<subseteq> dom (d(param \<mapsto> v))" by auto
      with True show ?thesis by (simp add: s')
    next
      case False
      with e show ?thesis by (simp add: s')
    qed
  qed
qed

lemma stats_inv_add_value:
  "stats_inv s \<Longrightarrow> add_value s p param v = Inr s' \<Longrightarrow> stats_inv s'"
  by (auto simp: add_value_def split: sum.splits option.splits intro: stats_inv_set_value)

text \<open>
  Claim C8. After \<open>__init__\<close> and after every \<open>set_params\<close>, every player of every
  team is a key of the table and maps exactly the declared parameter names, each to 0,
  whatever the table held before; and \<open>set_value\<close> and \<open>add_value\<close> keep every
  declared parameter present for every player.
\<close>

theorem params_seeded_and_preserved:
  "(\<forall>p \<in> set (all_players teams).
      st_players (stats_init teams params) (player_id p) = Some (zero_params params)) \<and>
   st_params (stats_init teams params) = params \<and>
   (\<forall>p \<in> set (all_players (st_teams s)).
      st_players (set_params s params) (player_id p) = Some (zero_params params)) \<and>
   st_params (set_params s params) = params \<and>
   st_teams (set_params s params) = st_teams s \<and>
   (\<forall>x. zero_params params x = (if x \<in> set params then Some 0 else None)) \<and>
   stats_inv (stats_init teams params) \<and>
   stats_inv (set_params s params) \<and>
   (stats_inv s \<longrightarrow> set_value s p param v = Inr s' \<longrightarrow> stats_inv s') \<and>
   (stats_inv s \<longrightarrow> add_value s p param v = Inr s'' \<longrightarrow> stats_inv s'')"
proof -
  have "st_players (set_params s0 params) (player_id q) = Some (zero_params params)"
    if "q \<in> set (all_players (st_teams s0))" for s0 q
    using that by (simp add: set_params_def seed_teams_apply)
  note seeded = this
  have init: "stats_init teams params = set_params \<lparr>st_teams = teams, st_players = Map.empty, st_params = []\<rparr> params"
    by (simp add: stats_init_def)
  have 1: "\<forall>p \<in> set (all_players teams).
      st_players (stats_init teams params) (player_id p) = Some (zero_params params)"
    unfolding init by (intro ballI seeded) simp
  have 2: "st_params (stats_init teams params) = params" "st_params (set_params s params) = params"
    "st_teams (set_params s params) = st_teams s"
    by (simp_all add: stats_init_def set_params_def)
  have 3: "\<forall>p \<in> set (all_players (st_teams s)).
      st_players (set_params s params) (player_id p) = Some (zero_params params)"
    by (intro ballI seeded)
  have 4: "stats_inv (stats_init teams params)" unfolding init by (rule stats_inv_set_params)
  from 1 2 3 4 show ?thesis
    by (simp add: zero_params_apply stats_inv_set_params)
       (blast intro: stats_inv_set_value stats_inv_add_value)
qed

theorem params_seeded_and_preserved_witness:
  "st_players (stats_init [ex_team1, ex_team2] [''a'']) (player_id ex_p1) = Some (zero_params [''a'']) \<and>
   st_players (set_params ex_stats [''b'']) (player_id ex_p1) = Some (zero_params [''b'']) \<and>
   zero_params [''b''] ''b'' = Some 0 \<and> zero_params [''b''] ''a'' = None \<and>
   stats_inv ex_stats0 \<and>
   set_value ex_stats0 ex_p1 ''a'' 4 = Inr (projr (set_value ex_stats0 ex_p1 ''a'' 4)) \<and>
   stats_inv (projr (set_value ex_stats0 ex_p1 ''a'' 4)) \<and>
   add_value ex_stats0 ex_p1 ''a'' 4 = Inr (projr (add_value ex_stats0 ex_p1 ''a'' 4)) \<and>
   stats_inv (projr (add_value ex_stats0 ex_p1 ''a'' 4))"
proof -
  have p1: "ex_p1 \<in> set (all_players [ex_team1, ex_team2])"
    by (simp add: all_players_ex)
  have p2: "ex_p1 \<in> set (all_players (st_teams ex_stats))"
    by (simp add: ex_stats_eval all_players_ex)
  have h1: "set_value ex_stats0 ex_p1 ''a'' 4 = Inr (projr (set_value ex_stats0 ex_p1 ''a'' 4))"
    by (simp add: ex_defs stats_init_def set_params_def set_value_def)
  have h2: "add_value ex_stats0 ex_p1 ''a'' 4 = Inr (projr (add_value ex_stats0 ex_p1 ''a'' 4))"
    by (simp add: ex_defs stats_init_def set_params_def set_value_def get_value_def add_value_def
        zero_params_def)
  note a = params_seeded_and_preserved [of "[ex_team1, ex_team2]" "[''a'']" ex_stats0 ex_p1 "''a''" 4
      "projr (set_value ex_stats0 ex_p1 ''a'' 4)" "projr (add_value ex_stats0 ex_p1 ''a'' 4)"]
  note b = params_seeded_and_preserved [of "[ex_team1, ex_team2]" "[''b'']" ex_stats]
  from a have a1: "st_players (stats_init [ex_team1, ex_team2] [''a'']) (player_id ex_p1) = Some (zero_params [''a''])"
    using p1 by blast
  from a have a2: "stats_inv ex_stats0" by (simp add: ex_stats0_def)
  from a a2 h1 have a3: "stats_inv (projr (set_value ex_stats0 ex_p1 ''a'' 4))" by blast
  from a a2 h2 have a4: "stats_inv (projr (add_value ex_stats0 ex_p1 ''a'' 4))" by blast
  from b have b1: "st_players (set_params ex_stats [''b'']) (player_id ex_p1) = Some (zero_params [''b''])"
    using p2 by blast
  from b have b2: "zero_params [''b''] ''b'' = Some 0" "zero_params [''b''] ''a'' = None"
    by simp_all
  from a1 a2 a3 a4 b1 b2 h1 h2 show ?thesis by blast
qed

section \<open>Publishing\<close>

lemma round_half_even_near: "\<bar>of_int (round_half_even y) - y\<bar> \<le> 1 / 2"
proof -
  have "of_int \<lfloor>y\<rfloor> \<le> y" "y < of_int \<lfloor>y\<rfloor> + 1" by linarith+
  then show ?thesis
    by (auto simp: round_half_even_def Let_def abs_le_iff)
qed

lemma py_round2_near: "\<bar>py_round2 x - x\<bar> \<le> 1 / 200"
proof -
  have "\<bar>of_int (round_half_even (x * 100)) - x * 100\<bar> \<le> 1 / 2"
    by (rule round_half_even_near)
  then show ?thesis
    by (simp add: py_round2_def abs_le_iff field_simps)
qed

lemma py_round2_evals:
  "py_round2 0 = 0" "py_round2 (5 / 2) = 5 / 2" "py_round2 1000 = 1000"
  "py_round2 (1 / 8) = 3 / 25" "py_round2 (3 / 8) = 19 / 50" "py_round2 (314159 / 100000) = 157 / 50"
  by code_simp+

text \<open>
  Claim C5. \<open>send_message\<close> appends exactly one message to the broker, on the channel
  \<open>game_engine_notifications\<close>: the object with the keys \<open>session_id\<close> (the client's
  session id), \<open>data\<close>, \<open>type\<close> and \<open>elapsed\<close> and no other, where \<open>elapsed\<close> is
  the elapsed time rounded to two decimal places (a multiple of \<open>1/100\<close>, at most
  \<open>1/200\<close> away).
\<close>

theorem send_message_envelope:
  "rc_published (send_message rc ty elapsed_time data) =
     rc_published rc @
       [(''game_engine_notifications'',
         PDict [(''session_id'', PStr (rc_session_id rc)),
                (''data'', (case data of None \<Rightarrow> PDict [] | Some d \<Rightarrow> d)),
                (''type'', PStr ty),
                (''elapsed'', PNum (py_round2 elapsed_time))])] \<and>
   set (keys (pack_message rc ty d' elapsed_time)) = {''session_id'', ''type'', ''data'', ''elapsed''} \<and>
   distinct (keys (pack_message rc ty d' elapsed_time)) \<and>
   (\<exists>k::int. py_round2 elapsed_time = of_int k / 100) \<and>
   \<bar>py_round2 elapsed_time - elapsed_time\<bar> \<le> 1 / 200"
proof -
  have "\<exists>k::int. py_round2 elapsed_time = of_int k / 100"
    unfolding py_round2_def by blast
  moreover have "set (keys (pack_message rc ty d' elapsed_time)) =
      {''session_id'', ''type'', ''data'', ''elapsed''}"
    by (auto simp: pack_message_def keys_def)
  moreover have "distinct (keys (pack_message rc ty d' elapsed_time))"
    by (simp add: pack_message_def keys_def)
  moreover note py_round2_near [of elapsed_time]
  ultimately show ?thesis
    by (simp add: send_message_def pack_message_def)
qed

theorem send_message_envelope_witness:
  "rc_published (send_message \<lparr>rc_session_id = ''s1'', rc_published = []\<rparr> ''frame'' (314159 / 100000) (Some (PInt 7))) =
     [(''game_engine_notifications'',
       PDict [(''session_id'', PStr ''s1''), (''data'', PInt 7), (''type'', PStr ''frame''),
              (''elapsed'', PNum (157 / 50))])]"
  using send_message_envelope [of "\<lparr>rc_session_id = ''s1'', rc_published = []\<rparr>" "''frame''" "314159 / 100000" "Some (PInt 7)"]
  by (simp add: py_round2_evals)

text \<open>
  Claim C9. \<open>send_event\<close> publishes one envelope of type \<open>event\<close> whose data is
  \<open>{type: event, description: description}\<close>, the description being \<open>{}\<close> when
  omitted; and \<open>set_winner(team)\<close> is \<open>send_event("winner", {team_id: team.id})\<close>.
\<close>

theorem send_event_envelope:
  "rc_published (cl_redis (send_event c now event description)) =
     rc_published (cl_redis c) @
       [(''game_engine_notifications'',
         PDict [(''session_id'', PStr (rc_session_id (cl_redis c))),
                (''data'', PDict [(''type'', PStr event),
                                  (''description'', (case description of None \<Rightarrow> PDict [] | Some d \<Rightarrow> d))]),
                (''type'', PStr ''event''),
                (''elapsed'', PNum (py_round2 (now - cl_start_time c)))])] \<and>
   set_winner c now t = send_event c now ''winner'' (Some (PDict [(''team_id'', PStr (team_id t))]))"
  by (simp add: send_event_def send_message_def pack_message_def set_winner_def elapsed_def)

theorem send_event_envelope_witness:
  "rc_published (cl_redis (set_winner (client_init ''s1'' [ex_team1]) 3 ex_team1)) =
     [(''game_engine_notifications'',
       PDict [(''session_id'', PStr ''s1''),
              (''data'', PDict [(''type'', PStr ''winner''),
                                (''description'', PDict [(''team_id'', PStr ''t1'')])]),
              (''type'', PStr ''event''),
              (''elapsed'', PNum 3)])] \<and>
   rc_published (cl_redis (send_event (client_init ''s1'' [ex_team1]) 0 ''ping'' None)) =
     [(''game_engine_notifications'',
       PDict [(''session_id'', PStr ''s1''),
              (''data'', PDict [(''type'', PStr ''ping''), (''description'', PDict [])]),
              (''type'', PStr ''event''),
              (''elapsed'', PNum 0)])]"
proof -
  have r: "py_round2 3 = 3" by code_simp
  note w = send_event_envelope [of "client_init ''s1'' [ex_team1]" 3 "''winner''"
      "Some (PDict [(''team_id'', PStr (team_id ex_team1))])" ex_team1]
  note e = send_event_envelope [of "client_init ''s1'' [ex_team1]" 0 "''ping''" None ex_team1]
  from w e show ?thesis
    by (simp add: client_init_def ex_team1_def r py_round2_evals)
qed








section \<open>Running a call under a timeout\<close>

text \<open>What the caller finds in the shared dict, by the worker's call and its progress.\<close>

lemma mailbox_after_join_cases:
  "mailbox_after_join done call =
     (case call of
        Returns v \<Rightarrow> (if done = 0 then initial_mailbox
                      else if done = 1 then initial_mailbox\<lparr>mb_result := v\<rparr>
                      else initial_mailbox\<lparr>mb_result := v, mb_finished := True\<rparr>)
      | Raises e \<Rightarrow> (if done = 0 then initial_mailbox
                     else if done = 1 then initial_mailbox\<lparr>mb_exception := Some e\<rparr>
                     else initial_mailbox\<lparr>mb_exception := Some e, mb_finished := True\<rparr>)
      | NoReturn \<Rightarrow> initial_mailbox)"
proof (cases call)
  case (Returns v)
  then show ?thesis
    by (cases "done"; cases "done - 1") (simp_all add: mailbox_after_join_def)
next
  case (Raises e)
  then show ?thesis
    by (cases "done"; cases "done - 1") (simp_all add: mailbox_after_join_def)
next
  case NoReturn
  then show ?thesis by (simp add: mailbox_after_join_def)
qed



text \<open>
  The outcome by what the worker did: \<open>timeout_run\<close> returns the call's value, or
  raises the call's exception, exactly when the worker got through both of its writes
  before it was terminated; a worker cut off earlier, and a call that never comes back,
  give \<open>TimeoutError\<close>.
\<close>

theorem timeout_run_by_progress:
  "timeout_run done call =
     (if done < 2 then Inl TimeoutError
      else case call of Returns v \<Rightarrow> Inr v | Raises e \<Rightarrow> Inl e | NoReturn \<Rightarrow> Inl TimeoutError)"
  by (auto simp: timeout_run_def mailbox_after_join_cases initial_mailbox_def Let_def
      split: worker_call.splits)

end
